theory Spec2Isabelle
  imports Complex_Main
begin

section \<open>JavaScript values\<close>










section \<open>The injected colour transform\<close>









datatype js_exn = Error string | TypeError string | Thrown string


section \<open>Strings\<close>






definition startsWith :: "string \<Rightarrow> string \<Rightarrow> bool" where
  "startsWith s p = (take (length p) s = p)"




subsection \<open>Digits\<close>




subsection \<open>\<^verbatim>\<open>parseInt(string, 16)\<close>\<close>


subsection \<open>\<^verbatim>\<open>Number(string)\<close>\<close>










section \<open>\<^verbatim>\<open>parseColor\<close>\<close>


section \<open>\<^verbatim>\<open>rgbToString\<close> and the loop over the elements\<close>






record styles =
  color :: string
  backgroundColor :: string







section \<open>The server\<close>

subsection \<open>Requests and responses\<close>

datatype json =
    JNull
  | JBool bool
  | JNumber rat
  | JString string
  | JArray "json list"
  | JObject "(string \<times> json) list"

text \<open>
  \<^verbatim>\<open>request.params\<close>: the tool name and the arguments, an object or absent. A key that
  the object does not have reads as \<^verbatim>\<open>undefined\<close>, here \<open>None\<close>.
\<close>

record params =
  name :: string
  arguments :: "(string \<rightharpoonup> json) option"

datatype ErrorCode = MethodNotFound | InvalidParams

datatype McpError = McpError ErrorCode string

text \<open>
  The text of a content item is either a template literal or the result of
  \<^verbatim>\<open>JSON.stringify(value, null, 2)\<close>, which is kept as the value it prints.
\<close>

datatype item_text = Text string | JSON_stringify json

record content_item =
  type :: string
  "text" :: item_text

record response =
  content :: "content_item list"
  isError :: "bool option"

text \<open>The value of \<^verbatim>\<open>x || y\<close> when \<open>x\<close> is a property of the arguments.\<close>

fun truthy :: "json \<Rightarrow> bool" where
  "truthy JNull = False"
| "truthy (JBool v) = v"
| "truthy (JNumber q) = (q \<noteq> 0)"
| "truthy (JString s) = (s \<noteq> [])"
| "truthy (JArray _) = True"
| "truthy (JObject _) = True"

definition or_else :: "json option \<Rightarrow> json \<Rightarrow> json" where
  "or_else x y = (case x of None \<Rightarrow> y | Some v \<Rightarrow> if truthy v then v else y)"

subsection \<open>The tool list\<close>

definition string_property :: "string \<Rightarrow> string \<Rightarrow> string \<times> json" where
  "string_property key description =
     (key, JObject [(''type'', JString ''string''), (''description'', JString description)])"

definition check_accessibility_tool :: json where
  "check_accessibility_tool = JObject
     [(''name'', JString ''check_accessibility''),
      (''description'', JString ''Check web accessibility of a given URL using axe-core''),
      (''inputSchema'', JObject
         [(''type'', JString ''object''),
          (''properties'', JObject
             [string_property ''url'' ''URL to analyze'',
              string_property ''waitForSelector''
                ''Optional CSS selector to wait for before analysis'',
              string_property ''userAgent''
                ''Optional user agent string to use for the request'']),
          (''required'', JArray [JString ''url''])])]"

definition simulate_colorblind_tool :: json where
  "simulate_colorblind_tool = JObject
     [(''name'', JString ''simulate_colorblind''),
      (''description'', JString ''Simulate how a webpage looks for colorblind users''),
      (''inputSchema'', JObject
         [(''type'', JString ''object''),
          (''properties'', JObject
             [string_property ''url'' ''URL to capture'',
              (''type'', JObject
                 [(''type'', JString ''string''),
                  (''enum'', JArray [JString ''protanopia'', JString ''deuteranopia'',
                                     JString ''tritanopia'']),
                  (''description'', JString ''Type of color blindness to simulate'')]),
              string_property ''outputPath'' ''Optional path to save the screenshot'',
              string_property ''userAgent''
                ''Optional user agent string to use for the request'']),
          (''required'', JArray [JString ''url'', JString ''type''])])]"

text \<open>The handler of \<^verbatim>\<open>ListToolsRequestSchema\<close>: it ignores the request.\<close>

definition ListTools :: json where
  "ListTools = JObject [(''tools'', JArray [check_accessibility_tool, simulate_colorblind_tool])]"

text \<open>Reading a property of a JSON object.\<close>

definition field :: "json \<Rightarrow> string \<Rightarrow> json option" where
  "field j key = (case j of JObject kvs \<Rightarrow> map_of kvs key | _ \<Rightarrow> None)"


definition elements :: "json option \<Rightarrow> json list" where
  "elements j = (case j of Some (JArray xs) \<Rightarrow> xs | _ \<Rightarrow> [])"

definition tool_names :: "json \<Rightarrow> json option list" where
  "tool_names listing = map (\<lambda>tool. field tool ''name'') (elements (field listing ''tools''))"

subsection \<open>The browser and the platform\<close>

text \<open>
  Everything outside the program is a call whose outcome the world decides. The calls
  carry the arguments the program passes. Logging with \<^verbatim>\<open>console.error\<close> has no effect
  on the control flow and is left out.
\<close>

record launch_options =
  headless :: bool
  args :: "string list"

record goto_options =
  waitUntil :: string
  timeout :: nat

datatype script = ColorblindSimulation string | AxeSource | AxeRun

datatype call =
    Launch launch_options
  | NewPage
  | SetViewport nat nat
  | SetUserAgent json
  | SetRequestInterception bool
  | On string
  | Goto string goto_options
  | WaitForSelector string nat
  | Sleep nat
  | Evaluate script
  | PathJoin string json
  | Screenshot string bool
  | Close
  | Throw

text \<open>
  What the in-page call of \<^verbatim>\<open>axe.run\<close> resolves to: \<^verbatim>\<open>{ error: err }\<close>, of which the
  program uses \<^verbatim>\<open>String(results.error)\<close>, or the results, with the fields that the
  type assertion of the source declares. A value of another shape is not modelled.
\<close>

record axe_node =
  html :: string
  failureSummary :: string

record violation =
  impact :: string
  description :: string
  "help" :: string
  helpUrl :: string
  nodes :: "axe_node list"

record axe_results =
  violations :: "violation list"
  passes :: "json list"
  inapplicable :: "json list"
  incomplete :: "json list"

datatype axe_reply = AxeError string | AxeResults axe_results

text \<open>
  The world: whether the call number \<open>n\<close> of a handler, counted from 0, throws, and the values the
  platform returns: the reply of axe, the clock, the environment variable, the result
  of \<^verbatim>\<open>path.join\<close> and the message of its TypeError.
\<close>

record world =
  outcome :: "nat \<Rightarrow> js_exn option"
  axe :: axe_reply
  toISOString :: string
  MCP_OUTPUT_DIR :: "string option"
  join :: "string \<Rightarrow> string \<Rightarrow> string"
  ERR_INVALID_ARG_TYPE :: "json \<Rightarrow> string"

type_synonym trace = "(call \<times> js_exn option) list"

text \<open>
  A timer cannot fail, and \<^verbatim>\<open>path.join\<close> throws a TypeError for an argument that is
  not a string.
\<close>

definition result_of :: "world \<Rightarrow> nat \<Rightarrow> call \<Rightarrow> js_exn option" where
  "result_of w n c =
     (case c of
        Sleep _ \<Rightarrow> None
      | PathJoin _ file \<Rightarrow>
          (case file of JString _ \<Rightarrow> outcome w n | _ \<Rightarrow> Some (TypeError (ERR_INVALID_ARG_TYPE w file)))
      | _ \<Rightarrow> outcome w n)"

text \<open>
  A run of awaited calls inside a \<^verbatim>\<open>try\<close> block: the first one that throws ends the
  run.
\<close>

fun run_calls :: "world \<Rightarrow> call list \<Rightarrow> trace \<Rightarrow> js_exn option \<times> trace" where
  "run_calls w [] tr = (None, tr)"
| "run_calls w (c # cs) tr =
     (case result_of w (length tr) c of
        None \<Rightarrow> run_calls w cs (tr @ [(c, None)])
      | Some e \<Rightarrow> (Some e, tr @ [(c, Some e)]))"

text \<open>\<^verbatim>\<open>error instanceof Error ? error.message : String(error)\<close>.\<close>

fun message :: "js_exn \<Rightarrow> string" where
  "message (Error m) = m"
| "message (TypeError m) = m"
| "message (Thrown s) = s"

definition error_response :: "string \<Rightarrow> js_exn \<Rightarrow> response" where
  "error_response prefix e =
     \<lparr> content = [\<lparr> type = ''text'', text = Text (prefix @ message e) \<rparr>],
       isError = Some True \<rparr>"

subsection \<open>The rewritten URL\<close>

text \<open>
  A regular expression of literals, options and sequences, matched at the start of the
  input with backtracking and the greedy preference of JavaScript: an option first
  tries its body. The continuation receives the rest of the input.
\<close>

datatype rx = Lit string | Opt rx | Cat rx rx

fun rx_match :: "rx \<Rightarrow> string \<Rightarrow> (string \<Rightarrow> string option) \<Rightarrow> string option" where
  "rx_match (Lit p) s k = (if startsWith s p then k (drop (length p) s) else None)"
| "rx_match (Opt x) s k = (case rx_match x s k of Some rest \<Rightarrow> Some rest | None \<Rightarrow> k s)"
| "rx_match (Cat x y) s k = rx_match x s (\<lambda>s1. rx_match y s1 k)"

text \<open>
  \<^verbatim>\<open>s.replace(/^.../, replacement)\<close> for an anchored expression without the global
  flag: the only position tried is the start.
\<close>

definition replace_anchored :: "rx \<Rightarrow> string \<Rightarrow> string \<Rightarrow> string" where
  "replace_anchored x rep s = (case rx_match x s Some of None \<Rightarrow> s | Some rest \<Rightarrow> rep @ rest)"

text \<open>\<^verbatim>\<open>/^(https?:\/\/)?(www\.)?/\<close> and its two groups.\<close>

definition scheme_group :: rx where
  "scheme_group = Cat (Lit ''http'') (Cat (Opt (Lit ''s'')) (Lit ''://''))"

definition www_group :: rx where
  "www_group = Lit ''www.''"

definition url_pattern :: rx where
  "url_pattern = Cat (Opt scheme_group) (Opt www_group)"

definition urlToUse :: "string \<Rightarrow> string" where
  "urlToUse url = replace_anchored url_pattern ''https://www.'' url"

subsection \<open>\<^verbatim>\<open>handleColorBlindSimulation\<close>\<close>

definition windows_user_agent :: string where
  "windows_user_agent = ''Mozilla/5.0 (Windows NT 10.0; Win64; x64) AppleWebKit/537.36 (KHTML, like Gecko) Chrome/120.0.0.0 Safari/537.36''"

definition mac_user_agent :: string where
  "mac_user_agent = ''Mozilla/5.0 (Macintosh; Intel Mac OS X 10_15_7) AppleWebKit/537.36 (KHTML, like Gecko) Chrome/120.0.0.0 Safari/537.36''"

definition simulation_launch :: launch_options where
  "simulation_launch =
     \<lparr> headless = True,
       args = [''--no-sandbox'', ''--disable-setuid-sandbox'', ''--disable-dev-shm-usage'',
               ''--disable-accelerated-2d-canvas'', ''--disable-gpu'',
               ''--window-size=1920,1080''] \<rparr>"

text \<open>The awaited calls of the \<^verbatim>\<open>try\<close> block up to the injected script and the pause after it.\<close>

definition simulation_calls :: "(string \<rightharpoonup> json) \<Rightarrow> string \<Rightarrow> string \<Rightarrow> call list" where
  "simulation_calls a url ty =
     [Launch simulation_launch,
      NewPage,
      SetViewport 1920 1080,
      SetUserAgent (or_else (a ''userAgent'') (JString windows_user_agent)),
      SetRequestInterception True,
      On ''request'',
      On ''response'',
      On ''console'',
      Goto (urlToUse url) \<lparr> waitUntil = ''networkidle2'', timeout = 120000 \<rparr>,
      WaitForSelector ''body'' 120000,
      Sleep 5000,
      Evaluate (ColorblindSimulation ty),
      Sleep 2000]"

definition outputDir :: "world \<Rightarrow> string" where
  "outputDir w =
     (case MCP_OUTPUT_DIR w of None \<Rightarrow> ''./output'' | Some d \<Rightarrow> if d = [] then ''./output'' else d)"

text \<open>
  The second argument of \<^verbatim>\<open>join\<close> is \<^verbatim>\<open>args.outputPath\<close>, which nothing has checked
  to be a string, or the default file name. The text of the joined path is the
  world's when the argument is a string; for another value \<^verbatim>\<open>join\<close> can only throw.
\<close>

definition output_file :: "(string \<rightharpoonup> json) \<Rightarrow> string \<Rightarrow> json" where
  "output_file a ty = or_else (a ''outputPath'') (JString (''colorblind_'' @ ty @ ''.png''))"

definition joined :: "world \<Rightarrow> json \<Rightarrow> string" where
  "joined w file = (case file of JString f \<Rightarrow> join w (outputDir w) f | _ \<Rightarrow> [])"

definition simulation_success :: "world \<Rightarrow> string \<Rightarrow> string \<Rightarrow> string \<Rightarrow> response" where
  "simulation_success w url ty outputPath =
     \<lparr> content =
         [\<lparr> type = ''text'',
            text = JSON_stringify (JObject
              [(''url'', JString url),
               (''type'', JString ty),
               (''outputPath'', JString outputPath),
               (''timestamp'', JString (toISOString w)),
               (''message'', JString (''Screenshot saved with '' @ ty @ '' simulation''))]) \<rparr>],
       isError = None \<rparr>"

text \<open>The \<^verbatim>\<open>try\<close> block: the response, or the exception that left it.\<close>

definition simulation_try ::
  "world \<Rightarrow> (string \<rightharpoonup> json) \<Rightarrow> string \<Rightarrow> string \<Rightarrow> (js_exn + response) \<times> trace" where
  "simulation_try w a url ty =
     (case run_calls w (simulation_calls a url ty) [] of
        (Some e, tr) \<Rightarrow> (Inl e, tr)
      | (None, tr) \<Rightarrow>
          (let file = output_file a ty;
               outputPath = joined w file
           in case run_calls w
                     [PathJoin (outputDir w) file, Screenshot outputPath True, Close] tr of
                (Some e, tr1) \<Rightarrow> (Inl e, tr1)
              | (None, tr1) \<Rightarrow> (Inr (simulation_success w url ty outputPath), tr1)))"

text \<open>\<^verbatim>\<open>browser\<close> is set once \<^verbatim>\<open>puppeteer.launch\<close> has resolved.\<close>

definition browser_defined :: "trace \<Rightarrow> bool" where
  "browser_defined tr = list_ex (\<lambda>ev. (case fst ev of Launch _ \<Rightarrow> snd ev = None | _ \<Rightarrow> False)) tr"

text \<open>
  The \<^verbatim>\<open>catch\<close> block: with a browser, \<^verbatim>\<open>browser.close()\<close> in a \<^verbatim>\<open>try\<close> of its own,
  whose exception is only logged.
\<close>

definition simulation_catch :: "world \<Rightarrow> js_exn \<Rightarrow> trace \<Rightarrow> response \<times> trace" where
  "simulation_catch w e tr =
     (error_response ''Error simulating color blindness: '' e,
      if browser_defined tr then snd (run_calls w [Close] tr) else tr)"

definition is_string :: "json option \<Rightarrow> bool" where
  "is_string v = (case v of Some (JString _) \<Rightarrow> True | _ \<Rightarrow> False)"

definition the_string :: "json option \<Rightarrow> string" where
  "the_string v = (case v of Some (JString s) \<Rightarrow> s | _ \<Rightarrow> [])"

definition handleColorBlindSimulation :: "world \<Rightarrow> params \<Rightarrow> (McpError + response) \<times> trace" where
  "handleColorBlindSimulation w request =
     (case arguments request of
        None \<Rightarrow> (Inl (McpError InvalidParams ''URL and type parameters are required''), [])
      | Some a \<Rightarrow>
          if \<not> is_string (a ''url'') \<or> \<not> is_string (a ''type'')
          then (Inl (McpError InvalidParams ''URL and type parameters are required''), [])
          else
            (case simulation_try w a (the_string (a ''url'')) (the_string (a ''type'')) of
               (Inr done, tr) \<Rightarrow> (Inr done, tr)
             | (Inl e, tr) \<Rightarrow>
                 (case simulation_catch w e tr of (failed, tr1) \<Rightarrow> (Inr failed, tr1))))"

subsection \<open>\<^verbatim>\<open>handleAccessibilityCheck\<close>\<close>

definition check_launch :: launch_options where
  "check_launch =
     \<lparr> headless = True,
       args = [''--no-sandbox'', ''--disable-setuid-sandbox'', ''--disable-dev-shm-usage'',
               ''--disable-accelerated-2d-canvas'', ''--disable-gpu'',
               ''--window-size=1920,1080'', ''--dns-prefetch-disable''] \<rparr>"

text \<open>
  \<^verbatim>\<open>args.userAgent\<close> is the argument when it is a string and the Macintosh agent
  otherwise; the call then replaces an empty string by the Windows agent.
\<close>

definition check_user_agent :: "(string \<rightharpoonup> json) \<Rightarrow> string" where
  "check_user_agent a =
     (let userAgent = (if is_string (a ''userAgent'') then the_string (a ''userAgent'')
                       else mac_user_agent)
      in if userAgent = [] then windows_user_agent else userAgent)"

definition check_calls :: "(string \<rightharpoonup> json) \<Rightarrow> string \<Rightarrow> call list" where
  "check_calls a url =
     [Launch check_launch,
      NewPage,
      SetViewport 1920 1080,
      SetUserAgent (JString (check_user_agent a)),
      Goto (urlToUse url) \<lparr> waitUntil = ''domcontentloaded'', timeout = 30000 \<rparr>,
      WaitForSelector ''body'' 30000,
      Sleep 5000,
      Evaluate AxeSource,
      Evaluate AxeRun,
      Close]"

definition node_json :: "axe_node \<Rightarrow> json" where
  "node_json n =
     JObject [(''html'', JString (html n)), (''failureSummary'', JString (failureSummary n))]"

definition violation_json :: "violation \<Rightarrow> json" where
  "violation_json v =
     JObject [(''impact'', JString (impact v)),
              (''description'', JString (description v)),
              (''help'', JString (help v)),
              (''helpUrl'', JString (helpUrl v)),
              (''nodes'', JArray (map node_json (nodes v)))]"

definition check_success :: "world \<Rightarrow> string \<Rightarrow> axe_results \<Rightarrow> response" where
  "check_success w url results =
     \<lparr> content =
         [\<lparr> type = ''text'',
            text = JSON_stringify (JObject
              [(''url'', JString url),
               (''timestamp'', JString (toISOString w)),
               (''violations'', JArray (map violation_json (violations results))),
               (''passes'', JNumber (of_nat (length (passes results)))),
               (''inapplicable'', JNumber (of_nat (length (inapplicable results)))),
               (''incomplete'', JNumber (of_nat (length (incomplete results))))]) \<rparr>],
       isError = None \<rparr>"

definition check_try ::
  "world \<Rightarrow> (string \<rightharpoonup> json) \<Rightarrow> string \<Rightarrow> (js_exn + response) \<times> trace" where
  "check_try w a url =
     (case run_calls w (check_calls a url) [] of
        (Some e, tr) \<Rightarrow> (Inl e, tr)
      | (None, tr) \<Rightarrow>
          (case axe w of
             AxeError err \<Rightarrow> (Inl (Error err), tr @ [(Throw, Some (Error err))])
           | AxeResults results \<Rightarrow> (Inr (check_success w url results), tr)))"

text \<open>The \<^verbatim>\<open>catch\<close> block only builds the response.\<close>

definition handleAccessibilityCheck :: "world \<Rightarrow> params \<Rightarrow> (McpError + response) \<times> trace" where
  "handleAccessibilityCheck w request =
     (case arguments request of
        None \<Rightarrow> (Inl (McpError InvalidParams ''URL parameter is required''), [])
      | Some a \<Rightarrow>
          if \<not> is_string (a ''url'')
          then (Inl (McpError InvalidParams ''URL parameter is required''), [])
          else
            (case check_try w a (the_string (a ''url'')) of
               (Inr done, tr) \<Rightarrow> (Inr done, tr)
             | (Inl e, tr) \<Rightarrow> (Inr (error_response ''Error analyzing URL: '' e), tr)))"

subsection \<open>The handler of \<^verbatim>\<open>CallToolRequestSchema\<close>\<close>

definition CallTool :: "world \<Rightarrow> params \<Rightarrow> (McpError + response) \<times> trace" where
  "CallTool w request =
     (if name request = ''check_accessibility'' then handleAccessibilityCheck w request
      else if name request = ''simulate_colorblind'' then handleColorBlindSimulation w request
      else (Inl (McpError MethodNotFound (''Unknown tool: '' @ name request)), []))"

subsection \<open>Observations on a trace\<close>

text \<open>The browsers that are open after a trace: launched and not closed.\<close>

fun open_browsers :: "trace \<Rightarrow> nat" where
  "open_browsers [] = 0"
| "open_browsers ((Launch _, None) # tr) = Suc (open_browsers tr)"
| "open_browsers (ev # tr) = open_browsers tr"

fun closed_browsers :: "trace \<Rightarrow> nat" where
  "closed_browsers [] = 0"
| "closed_browsers ((Close, None) # tr) = Suc (closed_browsers tr)"
| "closed_browsers (ev # tr) = closed_browsers tr"

definition leaked :: "trace \<Rightarrow> nat" where
  "leaked tr = open_browsers tr - closed_browsers tr"



text \<open>The launches and the navigations that a trace attempts.\<close>

definition is_Launch :: "call \<Rightarrow> bool" where
  "is_Launch c = (case c of Launch _ \<Rightarrow> True | _ \<Rightarrow> False)"

definition is_Goto :: "call \<Rightarrow> bool" where
  "is_Goto c = (case c of Goto _ _ \<Rightarrow> True | _ \<Rightarrow> False)"

definition launches :: "trace \<Rightarrow> call list" where
  "launches tr = filter is_Launch (map fst tr)"

definition navigations :: "trace \<Rightarrow> call list" where
  "navigations tr = filter is_Goto (map fst tr)"

text \<open>An event of a call that did not throw.\<close>

definition ok :: "call \<Rightarrow> call \<times> js_exn option" where
  "ok c = (c, None)"

text \<open>
  All the awaited calls of the \<^verbatim>\<open>try\<close> block of \<^verbatim>\<open>handleColorBlindSimulation\<close>, in
  order.
\<close>

definition simulation_all :: "world \<Rightarrow> (string \<rightharpoonup> json) \<Rightarrow> string \<Rightarrow> string \<Rightarrow> call list" where
  "simulation_all w a url ty =
     simulation_calls a url ty
       @ [PathJoin (outputDir w) (output_file a ty),
          Screenshot (joined w (output_file a ty)) True,
          Close]"

section \<open>Reference definitions\<close>








text \<open>
  The arguments of a request are present and hold a string under a key; and that
  string.
\<close>

definition string_argument :: "params \<Rightarrow> string \<Rightarrow> bool" where
  "string_argument request key =
     (case arguments request of None \<Rightarrow> False | Some a \<Rightarrow> is_string (a key))"

definition argument :: "params \<Rightarrow> string \<Rightarrow> string" where
  "argument request key = (case arguments request of None \<Rightarrow> [] | Some a \<Rightarrow> the_string (a key))"

text \<open>
  The rewritten URL in words: a leading \<^verbatim>\<open>https://\<close> or \<^verbatim>\<open>http://\<close> is removed, then
  a leading \<^verbatim>\<open>www.\<close>, and \<^verbatim>\<open>https://www.\<close> is put in front.
\<close>

definition strip_prefix :: "string \<Rightarrow> string \<Rightarrow> string" where
  "strip_prefix p s = (if startsWith s p then drop (length p) s else s)"

definition without_scheme :: "string \<Rightarrow> string" where
  "without_scheme url =
     (if startsWith url ''https://'' then drop (length ''https://'') url
      else if startsWith url ''http://'' then drop (length ''http://'') url
      else url)"

definition reference_url :: "string \<Rightarrow> string" where
  "reference_url url = ''https://www.'' @ strip_prefix ''www.'' (without_scheme url)"


section \<open>Examples\<close>

text \<open>
  A world in which every call succeeds and axe reports one violation, worlds in which
  the call number \<open>n\<close> times out, and a request for each tool.
\<close>

definition example_results :: axe_results where
  "example_results =
     \<lparr> violations =
         [\<lparr> impact = ''serious'',
            description = ''Ensures images have alternate text'',
            help = ''Images must have alternate text'',
            helpUrl = ''https://dequeuniversity.com/rules/axe/4.8/image-alt'',
            nodes = [\<lparr> html = ''<img src=logo.png>'',
                       failureSummary = ''Fix any of the following: Element does not have an alt attribute'' \<rparr>] \<rparr>],
       passes = [JNull, JNull],
       inapplicable = [JNull],
       incomplete = [] \<rparr>"

definition example_world :: world where
  "example_world =
     \<lparr> outcome = (\<lambda>n. None),
       axe = AxeResults example_results,
       toISOString = ''2024-01-01T00:00:00.000Z'',
       MCP_OUTPUT_DIR = None,
       join = (\<lambda>dir file. (if dir = ''./output'' then ''output'' else dir) @ ''/'' @ file),
       ERR_INVALID_ARG_TYPE = (\<lambda>v. ''The path argument must be of type string'') \<rparr>"

definition navigation_timeout :: "nat \<Rightarrow> world" where
  "navigation_timeout n =
     example_world \<lparr> outcome := (\<lambda>k. if k = n then Some (Error ''Navigation timeout exceeded'') else None) \<rparr>"

definition check_request :: params where
  "check_request =
     \<lparr> name = ''check_accessibility'', arguments = Some [''url'' \<mapsto> JString ''example.com''] \<rparr>"

definition simulate_request :: params where
  "simulate_request =
     \<lparr> name = ''simulate_colorblind'',
       arguments = Some [''url'' \<mapsto> JString ''example.com'', ''type'' \<mapsto> JString ''protanopia''] \<rparr>"


section \<open>Properties of the colour transform\<close>































section \<open>Properties of the server\<close>

subsection \<open>Runs of calls\<close>

lemma run_calls_None:
  "fst (run_calls w cs tr) = None \<Longrightarrow> snd (run_calls w cs tr) = tr @ map ok cs"
  by (induction cs arbitrary: tr) (auto simp: ok_def split: option.splits)

lemma run_calls_Some:
  "fst (run_calls w cs tr) = Some e \<Longrightarrow>
     \<exists>k<length cs. snd (run_calls w cs tr) = tr @ map ok (take k cs) @ [(cs ! k, Some e)]
        \<and> result_of w (length tr + k) (cs ! k) = Some e
        \<and> (\<forall>n<k. result_of w (length tr + n) (cs ! n) = None)"
proof (induction cs arbitrary: tr)
  case Nil
  then show ?case by simp
next
  case (Cons c cs)
  show ?case
  proof (cases "result_of w (length tr) c")
    case None
    with Cons.prems have "fst (run_calls w cs (tr @ [(c, None)])) = Some e" by simp
    from Cons.IH [OF this] obtain k where k: "k < length cs"
      "snd (run_calls w cs (tr @ [(c, None)])) = (tr @ [(c, None)]) @ map ok (take k cs) @ [(cs ! k, Some e)]"
      "result_of w (length (tr @ [(c, None)]) + k) (cs ! k) = Some e"
      "\<forall>n<k. result_of w (length (tr @ [(c, None)]) + n) (cs ! n) = None"
      by blast
    have "\<forall>n<Suc k. result_of w (length tr + n) ((c # cs) ! n) = None"
    proof (intro allI impI)
      fix n assume "n < Suc k"
      then show "result_of w (length tr + n) ((c # cs) ! n) = None"
        using None k(4) by (cases n) auto
    qed
    with None k(1,2,3) show ?thesis
      by (intro exI [of _ "Suc k"]) (simp add: ok_def)
  next
    case (Some e')
    with Cons.prems show ?thesis
      by (intro exI [of _ 0]) (simp add: ok_def)
  qed
qed

lemma run_calls_append:
  "run_calls w (cs @ ds) tr =
     (case run_calls w cs tr of (Some e, tr1) \<Rightarrow> (Some e, tr1) | (None, tr1) \<Rightarrow> run_calls w ds tr1)"
  by (induction cs arbitrary: tr) (auto split: option.splits)

lemma run_Close:
  "snd (run_calls w [Close] tr) = tr @ [(Close, outcome w (length tr))]"
  by (simp add: result_of_def split: option.splits)





lemma map_fst_comp_ok: "map (fst \<circ> ok) cs = cs"
  by (induction cs) (simp_all add: ok_def)

lemma filter_take_Nil: "filter P xs = [] \<Longrightarrow> filter P (take n xs) = []"
  by (auto simp: filter_empty_conv dest: in_set_takeD)

lemma launches_of:
  assumes "map fst tr = take k cs @ extra" and "0 < k" and "cs = Launch l # rest"
    and "filter is_Launch rest = []" and "filter is_Launch extra = []"
  shows "launches tr = [Launch l]"
proof -
  obtain j where j: "k = Suc j" using assms(2) by (cases k) auto
  have "filter is_Launch (take j rest) = []" using assms(4) by (rule filter_take_Nil)
  then show ?thesis
    using assms(1,3,5) by (simp add: launches_def j is_Launch_def)
qed

lemma navigations_subset:
  assumes "map fst tr = take k cs @ extra" and "filter is_Goto cs = [G]"
    and "filter is_Goto extra = []"
  shows "set (navigations tr) \<subseteq> {G}"
proof -
  have "set (filter is_Goto (take k cs)) \<subseteq> set (filter is_Goto cs)"
    by (auto dest: in_set_takeD)
  then show ?thesis using assms by (simp add: navigations_def)
qed

lemma navigations_reached:
  assumes "map fst tr = take k cs @ extra" and "cs = pre @ G # post" and "length pre < k"
    and "filter is_Goto pre = []" and "filter is_Goto post = []" and "is_Goto G"
    and "filter is_Goto extra = []"
  shows "navigations tr = [G]"
proof -
  obtain j where j: "k = length pre + Suc j"
    using assms(3) by (metis less_iff_Suc_add add_Suc_right)
  have "take k cs = pre @ G # take j post" by (simp add: assms(2) j)
  moreover have "filter is_Goto (take j post) = []" using assms(5) by (rule filter_take_Nil)
  ultimately show ?thesis using assms(1,4,6,7) by (simp add: navigations_def)
qed


subsection \<open>The rewritten URL\<close>

lemma startsWith_append:
  "startsWith s (p @ q) \<longleftrightarrow> startsWith s p \<and> startsWith (drop (length p) s) q"
proof -
  have "take (length p + length q) s = take (length p) s @ take (length q) (drop (length p) s)"
    by (simp add: take_add)
  moreover have "length (take (length p) s) = length p \<or> take (length q) (drop (length p) s) = []"
    by (cases "length p \<le> length s") auto
  ultimately show ?thesis
    unfolding startsWith_def by (auto simp: append_eq_append_conv)
qed

lemma startsWith_http: "startsWith s ''http://'' \<longleftrightarrow>
    startsWith s ''http'' \<and> startsWith (drop (length ''http'') s) ''://''"
  using startsWith_append [of s "''http''" "''://''"] by (simp only: append_Cons append_Nil)

lemma startsWith_https: "startsWith s ''https://'' \<longleftrightarrow>
    startsWith s ''http'' \<and> startsWith (drop (length ''http'') s) ''s''
      \<and> startsWith (drop (length ''s'') (drop (length ''http'') s)) ''://''"
  using startsWith_append [of s "''http''" "''s://''"]
        startsWith_append [of "drop (length ''http'') s" "''s''" "''://''"]
  by (simp only: append_Cons append_Nil)

lemma not_both: "startsWith s ''s'' \<Longrightarrow> \<not> startsWith s ''://''"
  by (cases s) (auto simp: startsWith_def)

lemma rx_match_Opt_Lit: "rx_match (Opt (Lit p)) s Some = Some (strip_prefix p s)"
  by (simp add: strip_prefix_def)

lemma rx_match_scheme:
  "rx_match scheme_group s (\<lambda>x. Some (f x)) =
     (if startsWith s ''https://'' then Some (f (drop (length ''https://'') s))
      else if startsWith s ''http://'' then Some (f (drop (length ''http://'') s))
      else None)"
proof (cases "startsWith s ''http''")
  case False
  then show ?thesis by (simp add: scheme_group_def startsWith_https startsWith_http)
next
  case http: True
  show ?thesis
  proof (cases "startsWith (drop (length ''http'') s) ''s''")
    case True
    from not_both [OF this] have "\<not> startsWith (drop (length ''http'') s) ''://''" .
    with http True show ?thesis
      by (cases "startsWith (drop (length ''s'') (drop (length ''http'') s)) ''://''")
         (simp_all add: scheme_group_def startsWith_https startsWith_http)
  next
    case False
    with http show ?thesis
      by (cases "startsWith (drop (length ''http'') s) ''://''")
         (simp_all add: scheme_group_def startsWith_https startsWith_http)
  qed
qed

lemma rx_match_url_pattern:
  "rx_match url_pattern url Some = Some (strip_prefix ''www.'' (without_scheme url))"
proof -
  have "rx_match url_pattern url Some =
          rx_match (Opt scheme_group) url (\<lambda>x. Some (strip_prefix ''www.'' x))"
    by (simp only: url_pattern_def www_group_def rx_match.simps(3) rx_match_Opt_Lit)
  also have "\<dots> = (case rx_match scheme_group url (\<lambda>x. Some (strip_prefix ''www.'' x)) of
                      Some rest \<Rightarrow> Some rest
                    | None \<Rightarrow> Some (strip_prefix ''www.'' url))"
    by (simp only: rx_match.simps(2))
  also have "\<dots> = Some (strip_prefix ''www.'' (without_scheme url))"
    unfolding rx_match_scheme without_scheme_def by simp
  finally show ?thesis .
qed

lemma urlToUse_reference: "urlToUse url = reference_url url"
  by (simp add: urlToUse_def replace_anchored_def reference_url_def rx_match_url_pattern)

lemma urlToUse_example: "urlToUse ''example.com'' = ''https://www.example.com''"
  by (simp add: urlToUse_reference reference_url_def without_scheme_def strip_prefix_def startsWith_def)

subsection \<open>The traces and responses of the handlers\<close>

lemma simulation_try_eq:
  "simulation_try w a url ty =
     (case run_calls w (simulation_all w a url ty) [] of
        (Some e, tr) \<Rightarrow> (Inl e, tr)
      | (None, tr) \<Rightarrow> (Inr (simulation_success w url ty (joined w (output_file a ty))), tr))"
  by (simp add: simulation_try_def simulation_all_def run_calls_append Let_def
      split: prod.splits option.splits)

lemma simulation_all_hd:
  "simulation_all w a url ty = Launch simulation_launch # tl (simulation_all w a url ty)"
  by (simp add: simulation_all_def simulation_calls_def)

lemma browser_defined_failed:
  assumes "cs = Launch l # rest" and "k < length cs"
  shows "browser_defined (map ok (take k cs) @ [(cs ! k, Some e)]) = (k \<noteq> 0)"
proof (cases k)
  case 0
  with assms show ?thesis by (simp add: browser_defined_def)
next
  case (Suc j)
  with assms show ?thesis by (simp add: browser_defined_def ok_def)
qed

lemma simulate_shape:
  assumes "arguments req = Some a" and "is_string (a ''url'')" and "is_string (a ''type'')"
  shows "handleColorBlindSimulation w req =
           (Inr (simulation_success w (the_string (a ''url'')) (the_string (a ''type''))
                   (joined w (output_file a (the_string (a ''type''))))),
            map ok (simulation_all w a (the_string (a ''url'')) (the_string (a ''type''))))
         \<or> (\<exists>k e. k < length (simulation_all w a (the_string (a ''url'')) (the_string (a ''type'')))
              \<and> result_of w k (simulation_all w a (the_string (a ''url'')) (the_string (a ''type'')) ! k) = Some e
              \<and> (\<forall>n<k. result_of w n (simulation_all w a (the_string (a ''url'')) (the_string (a ''type'')) ! n) = None)
              \<and> handleColorBlindSimulation w req =
                  (Inr (error_response ''Error simulating color blindness: '' e),
                   map ok (take k (simulation_all w a (the_string (a ''url'')) (the_string (a ''type''))))
                     @ [(simulation_all w a (the_string (a ''url'')) (the_string (a ''type'')) ! k, Some e)]
                     @ (if k = 0 then [] else [(Close, outcome w (Suc k))])))"
proof -
  let ?cs = "simulation_all w a (the_string (a ''url'')) (the_string (a ''type''))"
  show ?thesis
  proof (cases "fst (run_calls w ?cs [])")
    case None
    then have "run_calls w ?cs [] = (None, map ok ?cs)"
      using run_calls_None [of w ?cs "[]"] by (simp add: prod_eq_iff)
    then show ?thesis
      using assms by (simp add: handleColorBlindSimulation_def simulation_try_eq)
  next
    case (Some e)
    from run_calls_Some [OF this] obtain k where k: "k < length ?cs"
      and tr: "snd (run_calls w ?cs []) = map ok (take k ?cs) @ [(?cs ! k, Some e)]"
      and res: "result_of w k (?cs ! k) = Some e"
      and before: "\<forall>n<k. result_of w n (?cs ! n) = None"
      by auto
    let ?tr = "map ok (take k ?cs) @ [(?cs ! k, Some e)]"
    have run: "run_calls w ?cs [] = (Some e, ?tr)"
      using Some tr by (simp add: prod_eq_iff)
    have bd: "browser_defined ?tr = (k \<noteq> 0)"
      using browser_defined_failed [OF simulation_all_hd k] .
    have len: "length ?tr = Suc k" using k by simp
    have close: "snd (run_calls w [Close] ?tr) = ?tr @ [(Close, outcome w (Suc k))]"
      unfolding run_Close len ..
    have "handleColorBlindSimulation w req =
            (Inr (error_response ''Error simulating color blindness: '' e),
             ?tr @ (if k = 0 then [] else [(Close, outcome w (Suc k))]))"
      using assms run bd close
      by (simp add: handleColorBlindSimulation_def simulation_try_eq simulation_catch_def)
    with k res before show ?thesis by auto
  qed
qed

lemma check_shape:
  assumes "arguments req = Some a" and "is_string (a ''url'')"
  shows "(\<exists>results. axe w = AxeResults results
            \<and> handleAccessibilityCheck w req =
                (Inr (check_success w (the_string (a ''url'')) results),
                 map ok (check_calls a (the_string (a ''url'')))))
         \<or> (\<exists>err. axe w = AxeError err
            \<and> handleAccessibilityCheck w req =
                (Inr (error_response ''Error analyzing URL: '' (Error err)),
                 map ok (check_calls a (the_string (a ''url''))) @ [(Throw, Some (Error err))]))
         \<or> (\<exists>k e. k < length (check_calls a (the_string (a ''url'')))
              \<and> result_of w k (check_calls a (the_string (a ''url'')) ! k) = Some e
              \<and> (\<forall>n<k. result_of w n (check_calls a (the_string (a ''url'')) ! n) = None)
              \<and> handleAccessibilityCheck w req =
                  (Inr (error_response ''Error analyzing URL: '' e),
                   map ok (take k (check_calls a (the_string (a ''url''))))
                     @ [(check_calls a (the_string (a ''url'')) ! k, Some e)]))"
proof -
  let ?cs = "check_calls a (the_string (a ''url''))"
  show ?thesis
  proof (cases "fst (run_calls w ?cs [])")
    case None
    then have run: "run_calls w ?cs [] = (None, map ok ?cs)"
      using run_calls_None [of w ?cs "[]"] by (simp add: prod_eq_iff)
    show ?thesis
    proof (cases "axe w")
      case (AxeError err)
      with run assms show ?thesis
        by (simp add: handleAccessibilityCheck_def check_try_def)
    next
      case (AxeResults results)
      with run assms show ?thesis
        by (simp add: handleAccessibilityCheck_def check_try_def)
    qed
  next
    case (Some e)
    from run_calls_Some [OF this] obtain k where k: "k < length ?cs"
      and tr: "snd (run_calls w ?cs []) = map ok (take k ?cs) @ [(?cs ! k, Some e)]"
      and res: "result_of w k (?cs ! k) = Some e"
      and before: "\<forall>n<k. result_of w n (?cs ! n) = None"
      by auto
    have run: "run_calls w ?cs [] = (Some e, map ok (take k ?cs) @ [(?cs ! k, Some e)])"
      using Some tr by (simp add: prod_eq_iff)
    have "handleAccessibilityCheck w req =
            (Inr (error_response ''Error analyzing URL: '' e),
             map ok (take k ?cs) @ [(?cs ! k, Some e)])"
      using assms run by (simp add: handleAccessibilityCheck_def check_try_def)
    with k res before show ?thesis by blast
  qed
qed

lemma simulation_all_Launch:
  shows "simulation_all w a url ty = Launch simulation_launch # tl (simulation_all w a url ty)"
    and "filter is_Launch (tl (simulation_all w a url ty)) = []"
  by (simp_all add: simulation_all_def simulation_calls_def is_Launch_def)

lemma simulation_all_Goto:
  shows "simulation_all w a url ty =
     take 8 (simulation_all w a url ty)
       @ Goto (urlToUse url) \<lparr> waitUntil = ''networkidle2'', timeout = 120000 \<rparr>
       # drop 9 (simulation_all w a url ty)"
    and "length (take 8 (simulation_all w a url ty)) = 8"
    and "filter is_Goto (take 8 (simulation_all w a url ty)) = []"
    and "filter is_Goto (drop 9 (simulation_all w a url ty)) = []"
    and "filter is_Goto (simulation_all w a url ty) =
        [Goto (urlToUse url) \<lparr> waitUntil = ''networkidle2'', timeout = 120000 \<rparr>]"
  by (simp_all add: simulation_all_def simulation_calls_def is_Goto_def)

lemma check_calls_Launch:
  shows "check_calls a url = Launch check_launch # tl (check_calls a url)"
    and "filter is_Launch (tl (check_calls a url)) = []"
  by (simp_all add: check_calls_def is_Launch_def)

lemma check_calls_Goto:
  shows "check_calls a url =
     take 4 (check_calls a url)
       @ Goto (urlToUse url) \<lparr> waitUntil = ''domcontentloaded'', timeout = 30000 \<rparr>
       # drop 5 (check_calls a url)"
    and "length (take 4 (check_calls a url)) = 4"
    and "filter is_Goto (take 4 (check_calls a url)) = []"
    and "filter is_Goto (drop 5 (check_calls a url)) = []"
    and "filter is_Goto (check_calls a url) =
        [Goto (urlToUse url) \<lparr> waitUntil = ''domcontentloaded'', timeout = 30000 \<rparr>]"
  by (simp_all add: check_calls_def is_Goto_def)

lemma less_8: "k < 8 \<Longrightarrow> k \<in> {0, 1, 2, 3, 4, 5, 6, 7::nat}"
  by auto

lemma less_4: "k < 4 \<Longrightarrow> k \<in> {0, 1, 2, 3::nat}"
  by auto

lemma simulation_all_results:
  assumes "k < 8"
  shows "result_of w k (simulation_all w a url ty ! k) = outcome w k"
  using less_8 [OF assms]
  by (auto simp: simulation_all_def simulation_calls_def result_of_def)

lemma check_calls_results:
  assumes "k < 4"
  shows "result_of w k (check_calls a url ! k) = outcome w k"
  using less_4 [OF assms]
  by (auto simp: check_calls_def result_of_def)

lemma length_simulation_all: "length (simulation_all w a url ty) = 16"
  by (simp add: simulation_all_def simulation_calls_def)

lemma length_check_calls: "length (check_calls a url) = 10"
  by (simp add: check_calls_def)

lemma string_argumentD:
  assumes "string_argument request key"
  obtains a where "arguments request = Some a" and "is_string (a key)"
  using assms by (auto simp: string_argument_def split: option.splits)

lemma argument_eq: "arguments request = Some a \<Longrightarrow> argument request key = the_string (a key)"
  by (simp add: argument_def)

lemma simulate_trace:
  assumes "arguments req = Some a" and "is_string (a ''url'')" and "is_string (a ''type'')"
  shows "\<exists>k extra. 0 < k
           \<and> map fst (snd (handleColorBlindSimulation w req)) =
               take k (simulation_all w a (the_string (a ''url'')) (the_string (a ''type''))) @ extra
           \<and> filter is_Launch extra = [] \<and> filter is_Goto extra = []
           \<and> ((\<forall>n<8. outcome w n = None) \<longrightarrow> 8 < k)"
proof -
  let ?cs = "simulation_all w a (the_string (a ''url'')) (the_string (a ''type''))"
  from simulate_shape [OF assms, of w]
  consider (finished) "snd (handleColorBlindSimulation w req) = map ok ?cs"
    | (failed) k e where "k < length ?cs" "result_of w k (?cs ! k) = Some e"
        "snd (handleColorBlindSimulation w req) =
           map ok (take k ?cs) @ [(?cs ! k, Some e)] @ (if k = 0 then [] else [(Close, outcome w (Suc k))])"
    by fastforce
  then show ?thesis
  proof cases
    case finished
    then have "map fst (snd (handleColorBlindSimulation w req)) = take 16 ?cs @ []"
      by (simp add: map_fst_comp_ok length_simulation_all)
    then show ?thesis by (intro exI [of _ 16] exI [of _ "[]"]) simp
  next
    case (failed k e)
    have "map fst (snd (handleColorBlindSimulation w req)) =
            take (Suc k) ?cs @ (if k = 0 then [] else [Close])"
      using failed(1,3) by (simp add: map_fst_comp_ok take_Suc_conv_app_nth)
    moreover have "(\<forall>n<8. outcome w n = None) \<longrightarrow> 8 < Suc k"
    proof
      assume all: "\<forall>n<8. outcome w n = None"
      show "8 < Suc k"
      proof (rule ccontr)
        assume "\<not> 8 < Suc k"
        then have "k < 8" by simp
        with simulation_all_results [OF this, of w a] failed(2) all show False by simp
      qed
    qed
    ultimately show ?thesis
      by (intro exI [of _ "Suc k"] exI [of _ "if k = 0 then [] else [Close]"])
         (simp add: is_Launch_def is_Goto_def)
  qed
qed

lemma check_trace:
  assumes "arguments req = Some a" and "is_string (a ''url'')"
  shows "\<exists>k extra. 0 < k
           \<and> map fst (snd (handleAccessibilityCheck w req)) =
               take k (check_calls a (the_string (a ''url''))) @ extra
           \<and> filter is_Launch extra = [] \<and> filter is_Goto extra = []
           \<and> ((\<forall>n<4. outcome w n = None) \<longrightarrow> 4 < k)"
proof -
  let ?cs = "check_calls a (the_string (a ''url''))"
  from check_shape [OF assms, of w]
  consider (finished) "snd (handleAccessibilityCheck w req) = map ok ?cs"
    | (thrown) err where "snd (handleAccessibilityCheck w req) = map ok ?cs @ [(Throw, Some (Error err))]"
    | (failed) k e where "k < length ?cs" "result_of w k (?cs ! k) = Some e"
        "snd (handleAccessibilityCheck w req) = map ok (take k ?cs) @ [(?cs ! k, Some e)]"
    by fastforce
  then show ?thesis
  proof cases
    case finished
    then have "map fst (snd (handleAccessibilityCheck w req)) = take 10 ?cs @ []"
      by (simp add: map_fst_comp_ok length_check_calls)
    then show ?thesis by (intro exI [of _ 10] exI [of _ "[]"]) simp
  next
    case (thrown err)
    then have "map fst (snd (handleAccessibilityCheck w req)) = take 10 ?cs @ [Throw]"
      by (simp add: map_fst_comp_ok length_check_calls)
    then show ?thesis
      by (intro exI [of _ 10] exI [of _ "[Throw]"]) (simp add: is_Launch_def is_Goto_def)
  next
    case (failed k e)
    have "map fst (snd (handleAccessibilityCheck w req)) = take (Suc k) ?cs @ []"
      using failed(1,3) by (simp add: map_fst_comp_ok take_Suc_conv_app_nth)
    moreover have "(\<forall>n<4. outcome w n = None) \<longrightarrow> 4 < Suc k"
    proof
      assume all: "\<forall>n<4. outcome w n = None"
      show "4 < Suc k"
      proof (rule ccontr)
        assume "\<not> 4 < Suc k"
        then have "k < 4" by simp
        with check_calls_results [OF this, of w a] failed(2) all show False by simp
      qed
    qed
    ultimately show ?thesis
      by (intro exI [of _ "Suc k"] exI [of _ "[]"]) simp
  qed
qed










subsection \<open>The handlers on the examples\<close>

lemmas example_defs =
  navigation_timeout_def example_world_def check_request_def simulate_request_def
  example_results_def

lemmas handler_defs =
  handleAccessibilityCheck_def check_try_def check_calls_def
  handleColorBlindSimulation_def simulation_try_def simulation_calls_def simulation_catch_def
  result_of_def is_string_def the_string_def error_response_def browser_defined_def
  output_file_def or_else_def joined_def outputDir_def Let_def



subsection \<open>The claims about the server\<close>

text \<open>
  Claim C2 asks that every launched browser is closed before the handler returns, also
  when an error is caught. \<^verbatim>\<open>handleAccessibilityCheck\<close> does not do that: when the
  navigation times out, the handler returns its error response and the trace holds a
  successful launch and no close.
\<close>

theorem check_accessibility_leaks_browser:
  "handleAccessibilityCheck (navigation_timeout 4) check_request =
     (Inr \<lparr> content = [\<lparr> type = ''text'',
                          text = Text ''Error analyzing URL: Navigation timeout exceeded'' \<rparr>],
            isError = Some True \<rparr>,
      [(Launch check_launch, None),
       (NewPage, None),
       (SetViewport 1920 1080, None),
       (SetUserAgent (JString mac_user_agent), None),
       (Goto ''https://www.example.com'' \<lparr> waitUntil = ''domcontentloaded'', timeout = 30000 \<rparr>,
        Some (Error ''Navigation timeout exceeded''))])
   \<and> open_browsers (snd (handleAccessibilityCheck (navigation_timeout 4) check_request)) = 1
   \<and> closed_browsers (snd (handleAccessibilityCheck (navigation_timeout 4) check_request)) = 0
   \<and> leaked (snd (handleAccessibilityCheck (navigation_timeout 4) check_request)) = 1"
  by (simp add: example_defs handler_defs leaked_def urlToUse_example check_user_agent_def
      mac_user_agent_def)

text \<open>
  In the same situation \<^verbatim>\<open>handleColorBlindSimulation\<close> closes the browser in its
  \<^verbatim>\<open>catch\<close> block.
\<close>

lemma simulation_closes_browser_after_timeout:
  "open_browsers (snd (handleColorBlindSimulation (navigation_timeout 8) simulate_request)) = 1
   \<and> closed_browsers (snd (handleColorBlindSimulation (navigation_timeout 8) simulate_request)) = 1
   \<and> leaked (snd (handleColorBlindSimulation (navigation_timeout 8) simulate_request)) = 0"
  by (simp add: example_defs handler_defs leaked_def)

text \<open>
  Claim C4. The tool list names \<^verbatim>\<open>check_accessibility\<close> and \<^verbatim>\<open>simulate_colorblind\<close>,
  in this order and nothing else, and a call of a tool with another name fails with
  \<^verbatim>\<open>MethodNotFound\<close> before any call is made.
\<close>

theorem two_tools:
  "tool_names ListTools = [Some (JString ''check_accessibility''), Some (JString ''simulate_colorblind'')]
   \<and> (name request \<noteq> ''check_accessibility'' \<longrightarrow> name request \<noteq> ''simulate_colorblind'' \<longrightarrow>
        CallTool w request =
          (Inl (McpError MethodNotFound (''Unknown tool: '' @ name request)), []))"
  by (simp add: tool_names_def ListTools_def field_def elements_def check_accessibility_tool_def
      simulate_colorblind_tool_def CallTool_def)

theorem two_tools_witness:
  "CallTool example_world \<lparr> name = ''analyze_url'', arguments = None \<rparr> =
     (Inl (McpError MethodNotFound ''Unknown tool: analyze_url''), [])"
  using two_tools [of "\<lparr> name = ''analyze_url'', arguments = None \<rparr>" example_world]
  by simp





text \<open>
  Claim C7. Each handler launches one browser, with \<^verbatim>\<open>headless\<close> true. Every
  navigation of \<^verbatim>\<open>handleColorBlindSimulation\<close> waits for \<^verbatim>\<open>networkidle2\<close> with a
  timeout of 120000 ms, every navigation of \<^verbatim>\<open>handleAccessibilityCheck\<close> for
  \<^verbatim>\<open>domcontentloaded\<close> with 30000 ms, and the navigation takes place when the calls
  before it succeed.
\<close>

theorem headless_bounded_navigation:
  assumes "string_argument request ''url''"
  shows "(string_argument request ''type'' \<longrightarrow>
           launches (snd (handleColorBlindSimulation w request)) = [Launch simulation_launch]
           \<and> headless simulation_launch
           \<and> set (navigations (snd (handleColorBlindSimulation w request))) \<subseteq>
                {Goto (urlToUse (argument request ''url''))
                   \<lparr> waitUntil = ''networkidle2'', timeout = 120000 \<rparr>}
           \<and> ((\<forall>n<8. outcome w n = None) \<longrightarrow>
                navigations (snd (handleColorBlindSimulation w request)) =
                  [Goto (urlToUse (argument request ''url''))
                     \<lparr> waitUntil = ''networkidle2'', timeout = 120000 \<rparr>]))
       \<and> launches (snd (handleAccessibilityCheck w request)) = [Launch check_launch]
       \<and> headless check_launch
       \<and> set (navigations (snd (handleAccessibilityCheck w request))) \<subseteq>
            {Goto (urlToUse (argument request ''url''))
               \<lparr> waitUntil = ''domcontentloaded'', timeout = 30000 \<rparr>}
       \<and> ((\<forall>n<4. outcome w n = None) \<longrightarrow>
            navigations (snd (handleAccessibilityCheck w request)) =
              [Goto (urlToUse (argument request ''url''))
                 \<lparr> waitUntil = ''domcontentloaded'', timeout = 30000 \<rparr>])"
proof -
  from assms obtain a where a: "arguments request = Some a" and url: "is_string (a ''url'')"
    by (rule string_argumentD)
  have arg: "argument request key = the_string (a key)" for key
    using a by (rule argument_eq)
  let ?url = "the_string (a ''url'')"
  have sim: "launches (snd (handleColorBlindSimulation w request)) = [Launch simulation_launch]
           \<and> headless simulation_launch
           \<and> set (navigations (snd (handleColorBlindSimulation w request))) \<subseteq>
                {Goto (urlToUse ?url) \<lparr> waitUntil = ''networkidle2'', timeout = 120000 \<rparr>}
           \<and> ((\<forall>n<8. outcome w n = None) \<longrightarrow>
                navigations (snd (handleColorBlindSimulation w request)) =
                  [Goto (urlToUse ?url) \<lparr> waitUntil = ''networkidle2'', timeout = 120000 \<rparr>])"
    if "string_argument request ''type''"
  proof -
    from that a have ty: "is_string (a ''type'')" by (simp add: string_argument_def)
    let ?cs = "simulation_all w a ?url (the_string (a ''type''))"
    let ?tr = "snd (handleColorBlindSimulation w request)"
    let ?G = "Goto (urlToUse ?url) \<lparr> waitUntil = ''networkidle2'', timeout = 120000 \<rparr>"
    from simulate_trace [OF a url ty, of w] obtain k extra where k: "0 < k"
      and calls: "map fst ?tr = take k ?cs @ extra"
      and extra: "filter is_Launch extra = []" "filter is_Goto extra = []"
      and far: "(\<forall>n<8. outcome w n = None) \<longrightarrow> 8 < k"
      by blast
    note L = simulation_all_Launch [of w a ?url "the_string (a ''type'')"]
    note G = simulation_all_Goto [of w a ?url "the_string (a ''type'')"]
    have 1: "launches ?tr = [Launch simulation_launch]"
      by (rule launches_of [OF calls k L(1) L(2) extra(1)])
    have 2: "set (navigations ?tr) \<subseteq> {?G}"
      by (rule navigations_subset [OF calls G(5) extra(2)])
    have 3: "navigations ?tr = [?G]" if "\<forall>n<8. outcome w n = None"
    proof -
      from that far have "length (take 8 ?cs) < k" unfolding G(2) by simp
      then show ?thesis
        by (rule navigations_reached [OF calls G(1) _ G(3) G(4) _ extra(2)])
           (simp add: is_Goto_def)
    qed
    from 1 2 3 show ?thesis by (simp add: simulation_launch_def)
  qed
  have chk: "launches (snd (handleAccessibilityCheck w request)) = [Launch check_launch]
       \<and> headless check_launch
       \<and> set (navigations (snd (handleAccessibilityCheck w request))) \<subseteq>
            {Goto (urlToUse ?url) \<lparr> waitUntil = ''domcontentloaded'', timeout = 30000 \<rparr>}
       \<and> ((\<forall>n<4. outcome w n = None) \<longrightarrow>
            navigations (snd (handleAccessibilityCheck w request)) =
              [Goto (urlToUse ?url) \<lparr> waitUntil = ''domcontentloaded'', timeout = 30000 \<rparr>])"
  proof -
    let ?cs = "check_calls a ?url"
    let ?tr = "snd (handleAccessibilityCheck w request)"
    let ?G = "Goto (urlToUse ?url) \<lparr> waitUntil = ''domcontentloaded'', timeout = 30000 \<rparr>"
    from check_trace [OF a url, of w] obtain k extra where k: "0 < k"
      and calls: "map fst ?tr = take k ?cs @ extra"
      and extra: "filter is_Launch extra = []" "filter is_Goto extra = []"
      and far: "(\<forall>n<4. outcome w n = None) \<longrightarrow> 4 < k"
      by blast
    note L = check_calls_Launch [of a ?url]
    note G = check_calls_Goto [of a ?url]
    have 1: "launches ?tr = [Launch check_launch]"
      by (rule launches_of [OF calls k L(1) L(2) extra(1)])
    have 2: "set (navigations ?tr) \<subseteq> {?G}"
      by (rule navigations_subset [OF calls G(5) extra(2)])
    have 3: "navigations ?tr = [?G]" if "\<forall>n<4. outcome w n = None"
    proof -
      from that far have "length (take 4 ?cs) < k" unfolding G(2) by simp
      then show ?thesis
        by (rule navigations_reached [OF calls G(1) _ G(3) G(4) _ extra(2)])
           (simp add: is_Goto_def)
    qed
    from 1 2 3 show ?thesis by (simp add: check_launch_def)
  qed
  from sim chk show ?thesis unfolding arg by blast
qed

theorem headless_bounded_navigation_witness:
  "launches (snd (handleColorBlindSimulation example_world simulate_request)) =
     [Launch simulation_launch]
   \<and> headless simulation_launch
   \<and> navigations (snd (handleColorBlindSimulation example_world simulate_request)) =
       [Goto ''https://www.example.com'' \<lparr> waitUntil = ''networkidle2'', timeout = 120000 \<rparr>]
   \<and> launches (snd (handleAccessibilityCheck example_world simulate_request)) =
       [Launch check_launch]
   \<and> headless check_launch
   \<and> navigations (snd (handleAccessibilityCheck example_world simulate_request)) =
       [Goto ''https://www.example.com'' \<lparr> waitUntil = ''domcontentloaded'', timeout = 30000 \<rparr>]"
  using headless_bounded_navigation [of simulate_request example_world]
  by (simp add: string_argument_def argument_def simulate_request_def example_world_def
      is_string_def the_string_def urlToUse_example)



text \<open>
  Claim C9. A call of \<^verbatim>\<open>simulate_colorblind\<close> without arguments, or whose \<^verbatim>\<open>url\<close> or
  \<^verbatim>\<open>type\<close> is not a string, and a call of \<^verbatim>\<open>check_accessibility\<close> without
  arguments or whose \<^verbatim>\<open>url\<close> is not a string, throw \<^verbatim>\<open>InvalidParams\<close> with the
  message of the handler; the trace is empty, so no browser has been launched.
\<close>

theorem validation_before_launch:
  "(name request = ''simulate_colorblind''
      \<and> \<not> (string_argument request ''url'' \<and> string_argument request ''type'') \<longrightarrow>
      CallTool w request =
        (Inl (McpError InvalidParams ''URL and type parameters are required''), []))
   \<and> (name request = ''check_accessibility'' \<and> \<not> string_argument request ''url'' \<longrightarrow>
      CallTool w request = (Inl (McpError InvalidParams ''URL parameter is required''), []))"
  by (auto simp: CallTool_def handleColorBlindSimulation_def handleAccessibilityCheck_def
      string_argument_def split: option.splits)

theorem validation_before_launch_witness:
  "CallTool example_world
     \<lparr> name = ''simulate_colorblind'',
       arguments = Some [''url'' \<mapsto> JString ''example.com'', ''type'' \<mapsto> JNumber 1] \<rparr> =
     (Inl (McpError InvalidParams ''URL and type parameters are required''), [])
   \<and> CallTool example_world \<lparr> name = ''check_accessibility'', arguments = None \<rparr> =
     (Inl (McpError InvalidParams ''URL parameter is required''), [])"
  using validation_before_launch [of "\<lparr> name = ''simulate_colorblind'',
       arguments = Some [''url'' \<mapsto> JString ''example.com'', ''type'' \<mapsto> JNumber 1] \<rparr>" example_world]
    validation_before_launch [of "\<lparr> name = ''check_accessibility'', arguments = None \<rparr>" example_world]
  by (simp add: string_argument_def is_string_def)

end
